theory Spec2Isabelle
  imports Main "HOL-Library.AList" "HOL-Library.Char_ord" "HOL-Library.List_Lexorder"
    "HOL-Library.Product_Lexorder"
begin

section \<open>Python values used by pdslogger\<close>

text \<open>
  The embedding follows \<^verbatim>\<open>src/pdslogger/__init__.py\<close>. Exceptions are values of
  \<open>error\<close>; an operation on a logger returns its outcome together with the logger as
  the call leaves it, because a Python method that raises has already mutated the object.
\<close>

datatype error = KeyError string | IndexError | ValueError string | AttributeError

subsection \<open>Strings\<close>

text \<open>
  \<^verbatim>\<open>str.upper\<close> and \<^verbatim>\<open>str.lower\<close> on the ASCII letters; every other
  character is left as it is. Python converts letters outside ASCII as well, so the two
  functions agree with Python on ASCII strings (\<^verbatim>\<open>str.isascii\<close>), and a
  statement about the case conversion of an arbitrary name takes the name to be ASCII.
\<close>

definition ascii_lowercase :: string where
  "ascii_lowercase = ''abcdefghijklmnopqrstuvwxyz''"

definition ascii_uppercase :: string where
  "ascii_uppercase = ''ABCDEFGHIJKLMNOPQRSTUVWXYZ''"

definition upper_char :: "char \<Rightarrow> char" where
  "upper_char c = (case map_of (zip ascii_lowercase ascii_uppercase) c of
                     None \<Rightarrow> c | Some u \<Rightarrow> u)"

definition lower_char :: "char \<Rightarrow> char" where
  "lower_char c = (case map_of (zip ascii_uppercase ascii_lowercase) c of
                     None \<Rightarrow> c | Some u \<Rightarrow> u)"

definition upper :: "string \<Rightarrow> string" where
  "upper s = map upper_char s"

definition lower :: "string \<Rightarrow> string" where
  "lower s = map lower_char s"

definition isascii :: "string \<Rightarrow> bool" where
  "isascii s = list_all (\<lambda>c. of_char c < (128::nat)) s"

definition startswith :: "string \<Rightarrow> string \<Rightarrow> bool" where
  "startswith s p = (take (length p) s = p)"

text \<open>\<^verbatim>\<open>str(n)\<close> of an integer: decimal digits, with a minus sign below zero.\<close>

definition digit_char :: "nat \<Rightarrow> char" where
  "digit_char d = ''0123456789'' ! d"

fun str_nat :: "nat \<Rightarrow> string" where
  "str_nat n = (if n < 10 then [digit_char n]
                else str_nat (n div 10) @ [digit_char (n mod 10)])"

declare str_nat.simps [simp del]

definition str_int :: "int \<Rightarrow> string" where
  "str_int i = (if i < 0 then CHR ''-'' # str_nat (nat (- i)) else str_nat (nat i))"

subsection \<open>Dictionaries\<close>

text \<open>
  A \<^verbatim>\<open>dict\<close> is an association list in insertion order: assignment to a present
  key keeps its position, assignment to a new key appends (\<open>AList.update\<close>).
  A \<^verbatim>\<open>defaultdict(int)\<close> is the same list; reading a missing key yields 0 and
  inserts the key.
\<close>

definition dict_get :: "('k \<times> 'v) list \<Rightarrow> 'k \<Rightarrow> 'v \<Rightarrow> 'v" where
  "dict_get d k dflt = (case map_of d k of None \<Rightarrow> dflt | Some v \<Rightarrow> v)"

definition dict_set :: "('k \<times> 'v) list \<Rightarrow> 'k \<Rightarrow> 'v \<Rightarrow> ('k \<times> 'v) list" where
  "dict_set d k v = AList.update k v d"

definition dict_keys :: "('k \<times> 'v) list \<Rightarrow> 'k list" where
  "dict_keys d = map fst d"

definition dd_read :: "('k \<times> int) list \<Rightarrow> 'k \<Rightarrow> int \<times> ('k \<times> int) list" where
  "dd_read d k = (case map_of d k of None \<Rightarrow> (0, d @ [(k, 0)]) | Some v \<Rightarrow> (v, d))"

definition dd_add :: "('k \<times> int) list \<Rightarrow> 'k \<Rightarrow> int \<Rightarrow> ('k \<times> int) list" where
  "dd_add d k n = dict_set d k (dict_get d k 0 + n)"

section \<open>Levels and default tables\<close>

definition FATAL :: int where "FATAL = 50"
definition ERROR :: int where "ERROR = 40"
definition WARNING :: int where "WARNING = 30"
definition INFO :: int where "INFO = 20"
definition DEBUG :: int where "DEBUG = 10"
definition HIDDEN :: int where "HIDDEN = 1"

definition DEFAULT_LEVEL_BY_NAME :: "(string \<times> int) list" where
  "DEFAULT_LEVEL_BY_NAME =
     [(''fatal'', 50), (''critical'', 50), (''error'', 40), (''warn'', 30),
      (''warning'', 30), (''info'', 20), (''debug'', 10), (''hidden'', 1),
      (''normal'', 20), (''ds_store'', 10), (''dot_'', 40), (''invisible'', 30),
      (''exception'', 50), (''header'', 20)]"

definition DEFAULT_LEVEL_NAMES :: "(int \<times> string) list" where
  "DEFAULT_LEVEL_NAMES =
     [(50, ''FATAL''), (40, ''ERROR''), (30, ''WARNING''), (20, ''INFO''),
      (10, ''DEBUG''), (1, ''HIDDEN'')]"

definition DEFAULT_LIMITS_BY_NAME :: "(string \<times> int) list" where
  "DEFAULT_LIMITS_BY_NAME = []"

section \<open>Data model\<close>

text \<open>A level argument is \<^verbatim>\<open>int or str\<close>.\<close>

datatype level_arg = Name string | Num int

text \<open>
  A handler is an object of the \<^verbatim>\<open>logging\<close> module, compared by identity; a
  \<^verbatim>\<open>FileHandler\<close> carries its \<^verbatim>\<open>baseFilename\<close>.
\<close>

datatype handler = StreamHandler nat | FileHandler nat string

fun is_file_handler :: "handler \<Rightarrow> bool" where
  "is_file_handler (FileHandler i f) = True"
| "is_file_handler (StreamHandler i) = False"

fun baseFilename :: "handler \<Rightarrow> string" where
  "baseFilename (FileHandler i f) = f"
| "baseFilename (StreamHandler i) = []"

text \<open>
  What \<^verbatim>\<open>_logger_log\<close> does with a record: \<open>Printed\<close> is \<^verbatim>\<open>print(message)\<close>,
  \<open>Handled\<close> is \<^verbatim>\<open>self._logger.log(level, message)\<close>, and \<open>Filtered\<close> notes a
  record that reached \<^verbatim>\<open>_logger_log\<close> and was dropped by its level test (the
  source does nothing there; the event only makes the call visible in the trace).
\<close>

datatype event = Printed string | Handled int string | Filtered int string

text \<open>
  The source keeps eight parallel lists (\<^verbatim>\<open>_titles\<close>, \<^verbatim>\<open>_start_times\<close>,
  \<^verbatim>\<open>_limits_by_name\<close>, \<^verbatim>\<open>_counters_by_name\<close>, \<^verbatim>\<open>_suppressed_by_name\<close>,
  \<^verbatim>\<open>_counters_by_level\<close>, \<^verbatim>\<open>_suppressed_by_level\<close>, \<^verbatim>\<open>_local_handlers\<close>),
  created with one element each, extended together by \<^verbatim>\<open>open\<close> and cut together by
  \<^verbatim>\<open>close\<close>. One list of tiers stands for them, the last element being index -1.
\<close>

record tier =
  title :: string
  start_time :: int
  limits_by_name :: "(string \<times> int) list"
  counters_by_name :: "(string \<times> int) list"
  suppressed_by_name :: "(string \<times> int) list"
  counters_by_level :: "(int \<times> int) list"
  suppressed_by_level :: "(int \<times> int) list"
  local_handlers :: "handler list"

datatype logger_class = PdsLogger | EasyLogger | NullLogger

record logger =
  cls :: logger_class
  logname :: string
  roots :: "string list"
  level_by_name :: "(string \<times> int) list"
  level_names :: "(int \<times> string) list"
  tiers :: "tier list"
  handlers :: "handler list"
  timestamps :: bool
  digits :: int
  lognames :: bool
  pid :: int
  indent :: bool
  blanklines :: bool
  colors :: bool
  maxdepth :: int
  min_level :: int
  trace :: "event list"

text \<open>
  What a call reads from outside the logger: the clock
  (\<^verbatim>\<open>datetime.datetime.now()\<close>, in microseconds), its rendering by
  \<^verbatim>\<open>strftime(_TIME_FMT)\<close>, \<^verbatim>\<open>str\<close> of a time difference, and
  \<^verbatim>\<open>str(pathlib.Path(p).resolve())\<close>. One reading of the clock serves a whole call.
\<close>

record env =
  now :: int
  strftime :: "int \<Rightarrow> string"
  str_timedelta :: "int \<Rightarrow> string"
  resolve :: "string \<Rightarrow> string"

section \<open>Message formatting\<close>

definition get_depth :: "logger \<Rightarrow> int" where
  "get_depth s = int (length (tiers s)) - 1"

text \<open>
  \<^verbatim>\<open>_logged_level\<close>: a string is upper-cased; a number with a non-empty entry in
  \<^verbatim>\<open>_level_names\<close> gives that name upper-cased; any other number gives the
  default name with the smallest positive difference, and \<^verbatim>\<open>diffs[0]\<close> raises
  IndexError when no default level lies below it.
\<close>

definition logged_level :: "logger \<Rightarrow> level_arg \<Rightarrow> error + string" where
  "logged_level s level =
     (case level of
        Name n \<Rightarrow> Inr (upper n)
      | Num l \<Rightarrow>
          (let level_name = dict_get (level_names s) l [] in
           if level_name \<noteq> [] then Inr (upper level_name)
           else (let diffs = map (\<lambda>(lev, name). (l - lev, name)) DEFAULT_LEVEL_NAMES;
                     diffs = filter (\<lambda>diff. fst diff > 0) diffs;
                     diffs = sort diffs
                 in case diffs of
                      [] \<Rightarrow> Inl IndexError
                    | d # _ \<Rightarrow> Inr (snd d @ ''+'' @ str_int (fst d)))))"

fun strip_roots :: "string list \<Rightarrow> string \<Rightarrow> string \<Rightarrow> string" where
  "strip_roots [] filepath abspath = filepath"
| "strip_roots (root # rest) filepath abspath =
     (if startswith filepath root then drop (length root) filepath
      else if startswith abspath root then drop (length root) abspath
      else strip_roots rest filepath abspath)"

definition logged_filepath :: "env \<Rightarrow> logger \<Rightarrow> string \<Rightarrow> string" where
  "logged_filepath e s filepath =
     (if filepath = [] then []
      else strip_roots (roots s) filepath (resolve e filepath))"

definition logged_text :: "env \<Rightarrow> logger \<Rightarrow> level_arg \<Rightarrow> string \<Rightarrow> string \<Rightarrow> error + string" where
  "logged_text e s level message filepath =
     (let parts = [];
          parts = (if timestamps s
                   then (let timetag = strftime e (now e);
                             timetag = (if digits s \<le> 0 then take 19 timetag
                                        else take (nat (20 + digits s)) timetag)
                         in parts @ [timetag, '' | ''])
                   else parts);
          parts = (if lognames s then parts @ [logname s, '' | ''] else parts);
          parts = (if pid s \<noteq> 0 then parts @ [str_int (pid s), '' | ''] else parts);
          parts = (if indent s
                   then (if parts \<noteq> [] then butlast parts @ ['' |''] else parts)
                        @ [replicate (nat (get_depth s)) CHR ''-'', ''| '']
                   else parts)
      in case logged_level s level of
           Inl err \<Rightarrow> Inl err
         | Inr name \<Rightarrow>
             (let parts = parts @ [name, '' | '', message];
                  filepath = logged_filepath e s filepath;
                  parts = (if filepath \<noteq> [] then parts @ ['': '', filepath] else parts)
              in Inr (concat parts)))"

section \<open>Emission\<close>

text \<open>
  \<^verbatim>\<open>_logger_log\<close>, with the overriding methods of the two subclasses. The underlying
  \<^verbatim>\<open>logging.Logger\<close> holds the handlers of \<^verbatim>\<open>self._handlers\<close>: every method
  adds to and removes from both.
\<close>

definition emit :: "event \<Rightarrow> logger \<Rightarrow> logger" where
  "emit ev s = s\<lparr>trace := trace s @ [ev]\<rparr>"

definition logger_event :: "logger \<Rightarrow> int \<Rightarrow> string \<Rightarrow> bool \<Rightarrow> event" where
  "logger_event s level message force =
     (case cls s of
        PdsLogger \<Rightarrow>
          (let level = (if force then FATAL else level) in
           if level \<ge> min_level s
           then (if handlers s = [] then Printed message else Handled level message)
           else Filtered level message)
      | EasyLogger \<Rightarrow>
          (if level \<ge> min_level s \<or> force then Printed message
           else Filtered level message)
      | NullLogger \<Rightarrow>
          (if force \<or> level \<ge> FATAL then Printed message
           else Filtered level message))"

definition logger_log :: "int \<Rightarrow> string \<Rightarrow> bool \<Rightarrow> logger \<Rightarrow> logger" where
  "logger_log level message force s = emit (logger_event s level message force) s"

definition blankline :: "int \<Rightarrow> logger \<Rightarrow> logger" where
  "blankline level s = logger_log level [] False s"

section \<open>Counting and suppression\<close>

definition set_top :: "tier \<Rightarrow> logger \<Rightarrow> logger" where
  "set_top t s = s\<lparr>tiers := butlast (tiers s) @ [t]\<rparr>"

text \<open>Lines 826-833 of \<^verbatim>\<open>log\<close>: the level and its counting name.\<close>

definition resolve_level :: "logger \<Rightarrow> level_arg \<Rightarrow> error + string \<times> int" where
  "resolve_level s level =
     (case level of
        Name n \<Rightarrow>
          (let level_name = lower n in
           case map_of (level_by_name s) level_name of
             None \<Rightarrow> Inl (KeyError level_name)
           | Some l \<Rightarrow> Inr (level_name, l))
      | Num l \<Rightarrow>
          (case map_of (level_names s) l of
             Some level_name \<Rightarrow> Inr (level_name, l)
           | None \<Rightarrow> Inr ([], l)))"

text \<open>Lines 835-842: the two counters of the top tier.\<close>

definition level_key :: "tier \<Rightarrow> int \<Rightarrow> int" where
  "level_key t level =
     (if level \<in> set (dict_keys (counters_by_level t)) then level
      else max (10 * (level div 10)) HIDDEN)"

definition count_message :: "string \<Rightarrow> int \<Rightarrow> tier \<Rightarrow> tier" where
  "count_message level_name level t =
     (let t1 = (if level_name \<noteq> []
                then t\<lparr>counters_by_name := dd_add (counters_by_name t) level_name 1\<rparr>
                else t);
          key = level_key t1 level
      in t1\<lparr>counters_by_level := dd_add (counters_by_level t1) key 1\<rparr>)"

text \<open>
  Lines 845-849: the limit test. The counter is read only when the limit is not
  negative; the read inserts a missing key (the empty name).
\<close>

definition log_now :: "string \<Rightarrow> bool \<Rightarrow> tier \<Rightarrow> bool \<times> tier" where
  "log_now level_name force t =
     (let limit = dict_get (limits_by_name t) level_name (- 1) in
      if limit < 0 then (True, t)
      else (case dd_read (counters_by_name t) level_name of
              (count, counters) \<Rightarrow>
                (if count \<le> limit then True else force,
                 t\<lparr>counters_by_name := counters\<rparr>)))"

text \<open>Lines 860-868: the text of the notice at the first suppression.\<close>

definition suppression_notice :: "logger \<Rightarrow> string \<Rightarrow> int \<Rightarrow> string" where
  "suppression_notice s level_name level =
     (let level_id = dict_get (level_names s) level (str_int level);
          type_name = (if upper level_name = level_id then level_id
                   else level_name @ '' '' @ level_id)
      in ''Additional '' @ type_name @ '' messages suppressed'')"

definition log :: "env \<Rightarrow> level_arg \<Rightarrow> string \<Rightarrow> string \<Rightarrow> bool \<Rightarrow> logger
    \<Rightarrow> (error + unit) \<times> logger" where
  "log e level message filepath force s =
     (case resolve_level s level of
        Inl err \<Rightarrow> (Inl err, s)
      | Inr (level_name, lv) \<Rightarrow>
          (if tiers s = [] then (Inl IndexError, s)
           else
             (let t1 = count_message level_name lv (last (tiers s));
                  limit = dict_get (limits_by_name t1) level_name (- 1)
              in case log_now level_name force t1 of
                   (True, t2) \<Rightarrow>
                     (case logged_text e s
                             (if level_name \<noteq> [] then Name level_name else Num lv)
                             message filepath of
                        Inl err \<Rightarrow> (Inl err, set_top t2 s)
                      | Inr record_text \<Rightarrow>
                          (Inr (), logger_log lv record_text force (set_top t2 s)))
                 | (False, t2) \<Rightarrow>
                     (let t3 = t2\<lparr>suppressed_by_name :=
                                     dd_add (suppressed_by_name t2) level_name 1,
                                   suppressed_by_level :=
                                     dd_add (suppressed_by_level t2) lv 1\<rparr>;
                          s3 = set_top t3 s
                      in if dict_get (suppressed_by_name t3) level_name 0 = 1 \<and> limit \<noteq> 0
                         then (case logged_text e s3 (Name level_name)
                                      (suppression_notice s level_name lv) [] of
                                 Inl err \<Rightarrow> (Inl err, s3)
                               | Inr record_text \<Rightarrow>
                                   (Inr (), logger_log lv record_text False s3))
                         else (Inr (), s3)))))"

text \<open>\<^verbatim>\<open>set_limit\<close> stores the limit under the lower-cased name in the top tier.\<close>

definition set_limit :: "string \<Rightarrow> int \<Rightarrow> logger \<Rightarrow> (error + unit) \<times> logger" where
  "set_limit name limit s =
     (if tiers s = [] then (Inl IndexError, s)
      else (let t = last (tiers s)
            in (Inr (), set_top (t\<lparr>limits_by_name :=
                                     dict_set (limits_by_name t) (lower name) limit\<rparr>) s)))"

section \<open>The tier stack\<close>

text \<open>
  The loop of \<^verbatim>\<open>open\<close> over the handlers given: one already attached, or a file
  handler whose file is already written by a handler of the logger, is skipped. A
  subclass built on \<^verbatim>\<open>EasyLogger\<close> has \<^verbatim>\<open>self._logger = None\<close>, so
  \<^verbatim>\<open>self._logger.addHandler\<close> raises there. The argument \<^verbatim>\<open>handler\<close> is
  taken as a list; a single handler is the list of that one handler.
\<close>

fun add_handlers :: "logger_class \<Rightarrow> string list \<Rightarrow> handler list \<Rightarrow> handler list
    \<Rightarrow> handler list \<Rightarrow> error + handler list \<times> handler list" where
  "add_handlers c log_files [] attached local = Inr (attached, local)"
| "add_handlers c log_files (h # hs) attached local =
     (if h \<in> set attached then add_handlers c log_files hs attached local
      else if is_file_handler h \<and> baseFilename h \<in> set log_files
      then add_handlers c log_files hs attached local
      else if c = PdsLogger
      then add_handlers c log_files hs (attached @ [h]) (local @ [h])
      else Inl AttributeError)"

text \<open>
  Lines 679-683: the loop over the items of the new limit map. \<open>given\<close> are the keys of
  the \<^verbatim>\<open>limits\<close> argument; \<^verbatim>\<open>self._counters_by_name[-1]\<close> is still the
  parent's dictionary there, and reading it inserts a missing key.
\<close>

fun inherit_limits :: "string list \<Rightarrow> (string \<times> int) list \<Rightarrow> (string \<times> int) list
    \<Rightarrow> (string \<times> int) list \<times> (string \<times> int) list" where
  "inherit_limits given [] counters = ([], counters)"
| "inherit_limits given ((name, limit) # rest) counters =
     (if name \<notin> set given \<and> limit \<ge> 0
      then (case dd_read counters name of
              (count, counters1) \<Rightarrow>
                (case inherit_limits given rest counters1 of
                   (rest1, counters2) \<Rightarrow>
                     ((name, max 0 (limit - count)) # rest1, counters2)))
      else (case inherit_limits given rest counters of
              (rest1, counters2) \<Rightarrow> ((name, limit) # rest1, counters2)))"

text \<open>
  \<^verbatim>\<open>open\<close>. The header goes straight to \<^verbatim>\<open>_logger_log\<close>; the depth test
  follows it. Two failures come after the source has extended \<^verbatim>\<open>_titles\<close>,
  \<^verbatim>\<open>_start_times\<close> and \<^verbatim>\<open>_local_handlers\<close> (lines 648-652): the
  IndexError of \<^verbatim>\<open>self._limits_by_name[-1]\<close> on a logger whose root tier was
  closed, and the AttributeError above. Both come before the source touches a limit map
  or a counter, so the five lists of limits and counters are then as before the call.
  The result of a failed call holds the whole stack as it was before the call: the three
  lists left one element longer by the source are not represented, and of a failed call
  only the error, the trace, the limits and the counters are to be read from the result.
\<close>

definition open_tier :: "env \<Rightarrow> string \<Rightarrow> string \<Rightarrow> (string \<times> int) list \<Rightarrow> handler list
    \<Rightarrow> bool \<Rightarrow> logger \<Rightarrow> (error + unit) \<times> logger" where
  "open_tier e title_arg filepath limits handler force s =
     (let title1 = (if filepath \<noteq> [] then title_arg @ '': '' @ logged_filepath e s filepath
                    else title_arg)
      in case map_of (level_by_name s) ''header'' of
           None \<Rightarrow> (Inl (KeyError ''header''), s)
         | Some level \<Rightarrow>
             (case logged_text e s (Name ''HEADER'') title1 [] of
                Inl err \<Rightarrow> (Inl err, s)
              | Inr record_text \<Rightarrow>
                  (let s1 = logger_log level record_text force s in
                   if get_depth s1 \<ge> maxdepth s1
                   then (Inl (ValueError ''Maximum logging hierarchy depth has been reached''),
                         s1)
                   else if tiers s1 = [] then (Inl IndexError, s1)
                   else
                     (let log_files = map baseFilename
                                        (filter is_file_handler (handlers s1))
                      in case add_handlers (cls s1) log_files handler (handlers s1) [] of
                           Inl err \<Rightarrow> (Inl err, s1)
                         | Inr (attached, local) \<Rightarrow>
                             (let parent = last (tiers s1);
                                  limits1 = fold (\<lambda>(name, limit) d. dict_set d name limit)
                                              limits (limits_by_name parent)
                              in case inherit_limits (dict_keys limits) limits1
                                        (counters_by_name parent) of
                                   (limits2, counters) \<Rightarrow>
                                     (Inr (),
                                      s1\<lparr>tiers := butlast (tiers s1)
                                            @ [parent\<lparr>counters_by_name := counters\<rparr>,
                                               \<lparr>title = title1, start_time = now e,
                                                limits_by_name = limits2,
                                                counters_by_name = [],
                                                suppressed_by_name = [],
                                                counters_by_level = [],
                                                suppressed_by_level = [],
                                                local_handlers = local\<rparr>],
                                         handlers := attached\<rparr>))))))"

fun summarize_loop :: "(int \<times> int) list \<Rightarrow> int \<times> int \<times> int \<times> int
    \<Rightarrow> int \<times> int \<times> int \<times> int" where
  "summarize_loop [] totals = totals"
| "summarize_loop ((level, count) # rest) (fatal, errors, warnings, tests) =
     summarize_loop rest
       (if level \<ge> FATAL then (fatal + count, errors, warnings, tests + count)
        else if level \<ge> ERROR then (fatal, errors + count, warnings, tests + count)
        else if level \<ge> WARNING then (fatal, errors, warnings + count, tests + count)
        else (fatal, errors, warnings, tests + count))"

definition summarize :: "logger \<Rightarrow> error + int \<times> int \<times> int \<times> int" where
  "summarize s =
     (if tiers s = [] then Inl IndexError
      else Inr (summarize_loop (counters_by_level (last (tiers s))) (0, 0, 0, 0)))"

text \<open>
  The summary lines of \<^verbatim>\<open>close\<close> (lines 737-756). The source builds its tuples as
  \<^verbatim>\<open>(level, name) for name, level in self._counters_by_name[-1].items()\<close>, so the
  first component is the count of the name. The reads of the closing tier's own
  \<^verbatim>\<open>defaultdict\<close>s are plain lookups here: the keys they insert go with the tier.
\<close>

definition summary_note :: "string \<Rightarrow> int \<Rightarrow> int \<Rightarrow> string" where
  "summary_note name count suppressed =
     (let capname = upper name in
      if suppressed = 0
      then str_int count @ '' '' @ capname @ '' message''
           @ (if count = 1 then [] else ''s'')
      else (let unsuppressed = count - suppressed in
            str_int unsuppressed @ '' '' @ capname @ '' message''
            @ (if unsuppressed = 1 then [] else ''s'')
            @ '' reported of '' @ str_int count @ '' total''))"

fun summary_messages :: "int \<Rightarrow> tier \<Rightarrow> (int \<times> string) list \<Rightarrow> (int \<times> string) list" where
  "summary_messages header t [] = []"
| "summary_messages header t ((level, name) # rest) =
     (let count = dict_get (counters_by_name t) name 0;
          suppressed = dict_get (suppressed_by_name t) name 0
      in if count + suppressed = 0 then summary_messages header t rest
         else (max level header, summary_note name count suppressed)
              # summary_messages header t rest)"

text \<open>
  Lines 758-767: for every key of the closing tier's counters, its count is added to the
  parent's counter and the closing tier's suppressed total under the same key to the
  parent's suppressed total.
\<close>

fun transfer :: "('k \<times> int) list \<Rightarrow> ('k \<times> int) list \<Rightarrow> ('k \<times> int) list \<Rightarrow> ('k \<times> int) list
    \<Rightarrow> ('k \<times> int) list \<times> ('k \<times> int) list" where
  "transfer [] child_suppressed counters suppressed = (counters, suppressed)"
| "transfer ((k, count) # rest) child_suppressed counters suppressed =
     transfer rest child_suppressed (dd_add counters k count)
       (dd_add suppressed k (dict_get child_suppressed k 0))"

fun log_messages :: "env \<Rightarrow> (int \<times> string) list \<Rightarrow> logger \<Rightarrow> (error + unit) \<times> logger" where
  "log_messages e [] s = (Inr (), s)"
| "log_messages e ((level, note) # rest) s =
     (case logged_text e s (Name ''summary'') note [] of
        Inl err \<Rightarrow> (Inl err, s)
      | Inr message \<Rightarrow> log_messages e rest (logger_log level message False s))"

text \<open>
  \<^verbatim>\<open>close\<close>. The colouring of closed log files (\<^verbatim>\<open>finder_colors\<close>) acts on
  the file system only and is left out.
\<close>

definition close :: "env \<Rightarrow> logger \<Rightarrow> (error + int \<times> int \<times> int \<times> int) \<times> logger" where
  "close e s =
     (case map_of (level_by_name s) ''header'' of
        None \<Rightarrow> (Inl (KeyError ''header''), s)
      | Some header \<Rightarrow>
          (if tiers s = [] then (Inl IndexError, s)
           else
             (let t = last (tiers s);
                  messages = [(header, ''Completed: '' @ title t)];
                  messages = (if timestamps s
                              then messages @ [(header, ''Elapsed time = ''
                                     @ str_timedelta e (now e - start_time t))]
                              else messages);
                  tuples = sort (map (\<lambda>(name, level). (level, name)) (counters_by_name t));
                  messages = messages @ summary_messages header t tuples;
                  below = butlast (tiers s);
                  below = (if length (tiers s) > 1
                           then (let p = last below in
                                 case transfer (counters_by_name t) (suppressed_by_name t)
                                        (counters_by_name p) (suppressed_by_name p) of
                                   (cn, sn) \<Rightarrow>
                                     (case transfer (counters_by_level t)
                                             (suppressed_by_level t)
                                             (counters_by_level p) (suppressed_by_level p) of
                                        (cl, sl) \<Rightarrow>
                                          butlast below
                                          @ [p\<lparr>counters_by_name := cn,
                                               suppressed_by_name := sn,
                                               counters_by_level := cl,
                                               suppressed_by_level := sl\<rparr>]))
                           else below);
                  s1 = s\<lparr>tiers := below @ [t]\<rparr>
              in case summarize s1 of
                   Inl err \<Rightarrow> (Inl err, s1)
                 | Inr totals \<Rightarrow>
                     (let s2 = s1\<lparr>handlers := fold remove1 (local_handlers t) (handlers s1),
                                  tiers := below\<rparr>
                      in case log_messages e messages s2 of
                           (Inl err, s3) \<Rightarrow> (Inl err, s3)
                         | (Inr u, s3) \<Rightarrow>
                             (Inr totals,
                              if blanklines s3 then blankline header s3 else s3)))))"

section \<open>Construction\<close>

text \<open>
  The arguments of the constructor. \<open>cfg_logname\<close> is the qualified name; the test of
  its form and the process-wide table of names are left out, and the roots are taken as
  \<^verbatim>\<open>add_root\<close> leaves them. \<open>cfg_pid\<close> is \<^verbatim>\<open>os.getpid() if pid else 0\<close>.
\<close>

record config =
  cfg_class :: logger_class
  cfg_logname :: string
  cfg_levels :: "(string \<times> level_arg) list"
  cfg_limits :: "(string \<times> int) list"
  cfg_roots :: "string list"
  cfg_timestamps :: bool
  cfg_digits :: int
  cfg_lognames :: bool
  cfg_pid :: int
  cfg_indent :: bool
  cfg_blanklines :: bool
  cfg_colors :: bool
  cfg_maxdepth :: int
  cfg_level :: level_arg

definition default_config :: config where
  "default_config =
     \<lparr>cfg_class = PdsLogger, cfg_logname = ''pds.test'', cfg_levels = [], cfg_limits = [],
      cfg_roots = [], cfg_timestamps = True, cfg_digits = 6, cfg_lognames = True,
      cfg_pid = 0, cfg_indent = True, cfg_blanklines = True, cfg_colors = True,
      cfg_maxdepth = 6, cfg_level = Num (HIDDEN + 1)\<rparr>"

fun merge_levels :: "(string \<times> level_arg) list \<Rightarrow> (string \<times> int) list
    \<Rightarrow> error + (string \<times> int) list" where
  "merge_levels [] d = Inr d"
| "merge_levels ((level_name, Num level_num) # rest) d =
     merge_levels rest (dict_set d level_name level_num)"
| "merge_levels ((level_name, Name alias) # rest) d =
     (case map_of DEFAULT_LEVEL_BY_NAME (lower alias) of
        None \<Rightarrow> Inl (KeyError (lower alias))
      | Some level_num \<Rightarrow> merge_levels rest (dict_set d level_name level_num))"

definition merge_level_names :: "(string \<times> int) list \<Rightarrow> (int \<times> string) list" where
  "merge_level_names by_name =
     fold (\<lambda>(level_name, level_num) d.
             if level_num \<in> set (dict_keys d) then d else dict_set d level_num level_name)
       by_name DEFAULT_LEVEL_NAMES"

definition set_level :: "level_arg \<Rightarrow> logger \<Rightarrow> (error + unit) \<times> logger" where
  "set_level level s =
     (case level of
        Name n \<Rightarrow>
          (case map_of (level_by_name s) (lower n) of
             None \<Rightarrow> (Inl (KeyError (lower n)), s)
           | Some l \<Rightarrow> (Inr (), s\<lparr>min_level := l\<rparr>))
      | Num l \<Rightarrow> (Inr (), s\<lparr>min_level := l\<rparr>))"

definition init :: "env \<Rightarrow> config \<Rightarrow> error + logger" where
  "init e c =
     (case merge_levels (cfg_levels c) DEFAULT_LEVEL_BY_NAME of
        Inl err \<Rightarrow> Inl err
      | Inr by_name \<Rightarrow>
          (let limits = fold (\<lambda>(level_name, level_num) d. dict_set d level_name level_num)
                          (cfg_limits c) DEFAULT_LIMITS_BY_NAME;
               s = \<lparr>cls = cfg_class c, logname = cfg_logname c, roots = cfg_roots c,
                    level_by_name = by_name, level_names = merge_level_names by_name,
                    tiers = [\<lparr>title = cfg_logname c, start_time = now e,
                              limits_by_name = limits, counters_by_name = [],
                              suppressed_by_name = [], counters_by_level = [],
                              suppressed_by_level = [], local_handlers = []\<rparr>],
                    handlers = [], timestamps = cfg_timestamps c, digits = cfg_digits c,
                    lognames = cfg_lognames c, pid = cfg_pid c, indent = cfg_indent c,
                    blanklines = cfg_blanklines c, colors = cfg_colors c,
                    maxdepth = cfg_maxdepth c, min_level = 0, trace = []\<rparr>
           in case set_level (cfg_level c) s of
                (Inl err, s1) \<Rightarrow> Inl err
              | (Inr u, s1) \<Rightarrow> Inr s1))"

section \<open>Example loggers\<close>

text \<open>
  A fixed environment and the logger that the constructor builds from its default
  arguments; the closed statements below are evaluated on them.
\<close>

definition test_env :: env where
  "test_env = \<lparr>now = 0, strftime = (\<lambda>t. ''2024-01-01 00:00:00.000000''),
                str_timedelta = (\<lambda>d. ''0:00:00''), resolve = (\<lambda>p. p)\<rparr>"

definition default_logger :: logger where
  "default_logger =
     \<lparr>cls = PdsLogger, logname = ''pds.test'', roots = [],
      level_by_name = DEFAULT_LEVEL_BY_NAME, level_names = DEFAULT_LEVEL_NAMES,
      tiers = [\<lparr>title = ''pds.test'', start_time = 0, limits_by_name = [],
                counters_by_name = [], suppressed_by_name = [],
                counters_by_level = [], suppressed_by_level = [],
                local_handlers = []\<rparr>],
      handlers = [], timestamps = True, digits = 6, lognames = True, pid = 0,
      indent = True, blanklines = True, colors = True, maxdepth = 6, min_level = 2,
      trace = []\<rparr>"

text \<open>The logger built with \<^verbatim>\<open>level=60\<close>, a threshold above FATAL.\<close>

definition quiet_logger :: logger where
  "quiet_logger = default_logger\<lparr>min_level := 60\<rparr>"

section \<open>Trace entries of a call\<close>

text \<open>
  For stating what a call appends to the trace: the text \<^verbatim>\<open>_logged_text\<close> returns
  for a named level (it cannot fail there), the entry of a message logged under a name,
  and the entry of the notice that follows the first suppression.
\<close>

definition record_text :: "env \<Rightarrow> logger \<Rightarrow> level_arg \<Rightarrow> string \<Rightarrow> string \<Rightarrow> string" where
  "record_text e s level message filepath =
     (case logged_text e s level message filepath of Inr txt \<Rightarrow> txt | Inl err \<Rightarrow> [])"

definition message_event :: "env \<Rightarrow> logger \<Rightarrow> string \<Rightarrow> int \<Rightarrow> string \<Rightarrow> string \<Rightarrow> bool
    \<Rightarrow> event" where
  "message_event e s level_name level message filepath force =
     logger_event s level (record_text e s (Name level_name) message filepath) force"

definition notice_event :: "env \<Rightarrow> logger \<Rightarrow> string \<Rightarrow> int \<Rightarrow> event" where
  "notice_event e s level_name level =
     logger_event s level
       (record_text e s (Name level_name) (suppression_notice s level_name level) []) False"








text \<open>
  Further loggers: one built with \<^verbatim>\<open>maxdepth=0\<close>, one built with
  \<^verbatim>\<open>limits={'header': 0}\<close>, and one whose root tier has limits and has already
  counted some messages.
\<close>

definition flat_logger :: logger where
  "flat_logger = default_logger\<lparr>maxdepth := 0\<rparr>"

definition header_limited :: logger where
  "header_limited =
     default_logger\<lparr>tiers := [(last (tiers default_logger))\<lparr>limits_by_name := [(''header'', 0)]\<rparr>]\<rparr>"

definition busy_logger :: logger where
  "busy_logger =
     default_logger\<lparr>tiers := [(last (tiers default_logger))
        \<lparr>limits_by_name := [(''info'', 5), (''debug'', - 1), (''warn'', 3), (''error'', 1)],
         counters_by_name := [(''info'', 2), (''error'', 4)],
         counters_by_level := [(20, 2), (40, 4)]\<rparr>]\<rparr>"

text \<open>The default logger after \<^verbatim>\<open>set_limit('WARNING', 0)\<close>.\<close>

definition warning_limited :: logger where
  "warning_limited =
     default_logger\<lparr>tiers := [(last (tiers default_logger))\<lparr>limits_by_name := [(''warning'', 0)]\<rparr>]\<rparr>"

text \<open>
  The loggers built with \<^verbatim>\<open>limits={'info': 0}\<close> and with
  \<^verbatim>\<open>limits={'warn': 1}\<close>, and a run of five calls, the second and the fourth
  one forced.
\<close>

definition info_muted :: logger where
  "info_muted =
     default_logger\<lparr>tiers := [(last (tiers default_logger))\<lparr>limits_by_name := [(''info'', 0)]\<rparr>]\<rparr>"

definition warn_once :: logger where
  "warn_once =
     default_logger\<lparr>tiers := [(last (tiers default_logger))\<lparr>limits_by_name := [(''warn'', 1)]\<rparr>]\<rparr>"


text \<open>
  The logger built with \<^verbatim>\<open>levels={'foo': 25}, limits={'foo': 0}\<close>, and the same
  logger after \<^verbatim>\<open>open('task')\<close> and \<^verbatim>\<open>log('foo', 'm')\<close>.
\<close>

definition foo_logger :: logger where
  "foo_logger =
     default_logger
       \<lparr>level_by_name := DEFAULT_LEVEL_BY_NAME @ [(''foo'', 25)],
        level_names := DEFAULT_LEVEL_NAMES @ [(25, ''foo'')],
        tiers := [(last (tiers default_logger))\<lparr>limits_by_name := [(''foo'', 0)]\<rparr>]\<rparr>"

definition foo_section :: logger where
  "foo_section =
     snd (log test_env (Name ''foo'') ''m'' [] False
            (snd (open_tier test_env ''task'' [] [] [] False foo_logger)))"

text \<open>
  The logger built with \<^verbatim>\<open>levels={'low': 5}\<close>, and the logger that
  \<^verbatim>\<open>EasyLogger()\<close> builds from its default arguments.
\<close>

definition low_logger :: logger where
  "low_logger =
     default_logger
       \<lparr>level_by_name := DEFAULT_LEVEL_BY_NAME @ [(''low'', 5)],
        level_names := DEFAULT_LEVEL_NAMES @ [(5, ''low'')]\<rparr>"

definition easy_logger :: logger where
  "easy_logger =
     default_logger
       \<lparr>cls := EasyLogger, logname := ''pds.easylog'',
        tiers := [(last (tiers default_logger))\<lparr>title := ''pds.easylog''\<rparr>]\<rparr>"

section \<open>Facts about the dictionaries\<close>

lemma dict_get_dd_add:
  "dict_get (dd_add d k n) k' 0 = (if k' = k then dict_get d k 0 + n else dict_get d k' 0)"
  by (simp add: dd_add_def dict_get_def dict_set_def update_conv')

text \<open>The example loggers are the loggers that the constructor builds.\<close>

lemma init_default: "init test_env default_config = Inr default_logger"
  by code_simp

lemma init_quiet: "init test_env (default_config\<lparr>cfg_level := Num 60\<rparr>) = Inr quiet_logger"
  by code_simp

lemma init_flat: "init test_env (default_config\<lparr>cfg_maxdepth := 0\<rparr>) = Inr flat_logger"
  by code_simp

lemma init_header_limited:
  "init test_env (default_config\<lparr>cfg_limits := [(''header'', 0)]\<rparr>) = Inr header_limited"
  by code_simp

lemma init_info_muted:
  "init test_env (default_config\<lparr>cfg_limits := [(''info'', 0)]\<rparr>) = Inr info_muted"
  by code_simp

lemma init_warn_once:
  "init test_env (default_config\<lparr>cfg_limits := [(''warn'', 1)]\<rparr>) = Inr warn_once"
  by code_simp

lemma init_low:
  "init test_env (default_config\<lparr>cfg_levels := [(''low'', Num 5)]\<rparr>) = Inr low_logger"
  by code_simp

lemma init_easy:
  "init test_env (default_config\<lparr>cfg_class := EasyLogger, cfg_logname := ''pds.easylog''\<rparr>)
     = Inr easy_logger"
  by code_simp

lemma init_foo:
  "init test_env (default_config\<lparr>cfg_levels := [(''foo'', Num 25)],
                                  cfg_limits := [(''foo'', 0)]\<rparr>) = Inr foo_logger"
  by code_simp

section \<open>Facts about the operations\<close>

lemma logger_log_eq:
  "logger_log level message force s = s\<lparr>trace := trace s @ [logger_event s level message force]\<rparr>"
  by (simp add: logger_log_def emit_def)

lemma logged_text_Name:
  "\<exists>txt. logged_text e s (Name n) message filepath = Inr txt"
  by (simp add: logged_text_def logged_level_def Let_def)

lemma dd_read_eq:
  "dd_read d k = (v, d') \<Longrightarrow> v = dict_get d k 0 \<and> (\<forall>k'. dict_get d' k' 0 = dict_get d k' 0)"
  by (auto simp add: dd_read_def dict_get_def split: option.splits if_splits)

lemma inherit_limits_eq:
  "inherit_limits given items c = (items', c') \<Longrightarrow>
     items' = map (\<lambda>(name, limit). (name, if name \<notin> set given \<and> limit \<ge> 0
                                   then max 0 (limit - dict_get c name 0) else limit)) items
     \<and> (\<forall>k. dict_get c' k 0 = dict_get c k 0)"
proof (induction items arbitrary: c items' c')
  case Nil
  then show ?case by simp
next
  case (Cons a items)
  obtain name limit where a: "a = (name, limit)" by (cases a)
  show ?case
  proof (cases "name \<notin> set given \<and> limit \<ge> 0")
    case True
    obtain v c1 where r: "dd_read c name = (v, c1)" by (cases "dd_read c name")
    obtain rest1 c2 where i: "inherit_limits given items c1 = (rest1, c2)"
      by (cases "inherit_limits given items c1")
    from dd_read_eq [OF r] have v: "v = dict_get c name 0"
      and c1: "\<And>k. dict_get c1 k 0 = dict_get c k 0" by auto
    from Cons.IH [OF i] have rest1: "rest1 = map (\<lambda>(name, limit). (name, if name \<notin> set given \<and> limit \<ge> 0
                                   then max 0 (limit - dict_get c1 name 0) else limit)) items"
      and c2: "\<And>k. dict_get c2 k 0 = dict_get c1 k 0" by auto
    from Cons.prems True r i have "items' = (name, max 0 (limit - v)) # rest1" and "c' = c2"
      by (auto simp add: a)
    then show ?thesis using True by (auto simp add: a v c1 rest1 c2)
  next
    case False
    obtain rest1 c2 where i: "inherit_limits given items c = (rest1, c2)"
      by (cases "inherit_limits given items c")
    from Cons.IH [OF i] have rest1: "rest1 = map (\<lambda>(name, limit). (name, if name \<notin> set given \<and> limit \<ge> 0
                                   then max 0 (limit - dict_get c name 0) else limit)) items"
      and c2: "\<And>k. dict_get c2 k 0 = dict_get c k 0" by auto
    from Cons.prems False i have "items' = (name, limit) # rest1" and "c' = c2"
      by (auto simp add: a)
    then show ?thesis using False by (auto simp add: a rest1 c2)
  qed
qed

lemma map_of_map_value:
  "map_of (map (\<lambda>(k, v). (k, f k v)) xs) k = map_option (f k) (map_of xs k)"
  by (induction xs) auto

lemma map_of_fold_dict_set:
  "distinct (map fst L) \<Longrightarrow>
     map_of (fold (\<lambda>(name, limit) d. dict_set d name limit) L d) k =
       (case map_of L k of Some v \<Rightarrow> Some v | None \<Rightarrow> map_of d k)"
proof (induction L arbitrary: d)
  case Nil
  then show ?case by simp
next
  case (Cons a L)
  obtain n l where a: "a = (n, l)" by (cases a)
  from Cons.prems have d: "distinct (map fst L)" and n: "n \<notin> fst ` set L" by (auto simp add: a)
  from n have none: "map_of L n = None" by (simp add: map_of_eq_None_iff)
  show ?case
    using Cons.IH [OF d, of "dict_set d n l"] none
    by (auto simp add: a dict_set_def update_conv' split: option.splits)
qed

lemma logged_text_record_text:
  "logged_text e s (Name n) message filepath = Inr (record_text e s (Name n) message filepath)"
  using logged_text_Name [of e s n message filepath] by (auto simp add: record_text_def)

lemma logged_level_frame:
  "logged_level (s\<lparr>tiers := ts, trace := tr\<rparr>) level = logged_level s level"
  "logged_level (s\<lparr>tiers := ts\<rparr>) level = logged_level s level"
  by (cases level; simp add: logged_level_def)+

lemma logged_filepath_frame:
  "logged_filepath e (s\<lparr>tiers := ts, trace := tr\<rparr>) filepath = logged_filepath e s filepath"
  "logged_filepath e (s\<lparr>tiers := ts\<rparr>) filepath = logged_filepath e s filepath"
  by (simp_all add: logged_filepath_def)

lemma logged_text_frame:
  "length ts = length (tiers s) \<Longrightarrow>
     logged_text e (s\<lparr>tiers := ts, trace := tr\<rparr>) level message filepath
       = logged_text e s level message filepath"
  "length ts = length (tiers s) \<Longrightarrow>
     logged_text e (s\<lparr>tiers := ts\<rparr>) level message filepath
       = logged_text e s level message filepath"
  by (simp_all add: logged_text_def logged_level_frame logged_filepath_frame get_depth_def
        Let_def split: sum.splits)

lemma record_text_frame:
  "length ts = length (tiers s) \<Longrightarrow>
     record_text e (s\<lparr>tiers := ts, trace := tr\<rparr>) level message filepath
       = record_text e s level message filepath"
  "length ts = length (tiers s) \<Longrightarrow>
     record_text e (s\<lparr>tiers := ts\<rparr>) level message filepath
       = record_text e s level message filepath"
  by (simp_all add: record_text_def logged_text_frame)

lemma logger_event_frame:
  "logger_event (s\<lparr>tiers := ts, trace := tr\<rparr>) = logger_event s"
  "logger_event (s\<lparr>tiers := ts\<rparr>) = logger_event s"
  by (cases "cls s"; simp add: logger_event_def fun_eq_iff Let_def)+


lemma dd_read_present:
  "dd_read (dd_add d k n) k = (dict_get d k 0 + n, dd_add d k n)"
  by (simp add: dd_read_def dd_add_def dict_set_def dict_get_def update_conv')

lemma log_named_step:
  assumes "resolve_level s level = Inr (n, S)" and "n \<noteq> []" and "tiers s \<noteq> []"
  shows "log e level message filepath force s =
     (Inr (),
      (let t = last (tiers s);
           t1 = count_message n S t;
           limit = dict_get (limits_by_name t) n (- 1)
       in if limit < 0 \<or> dict_get (counters_by_name t) n 0 + 1 \<le> limit \<or> force
          then s\<lparr>tiers := butlast (tiers s) @ [t1],
                 trace := trace s @ [message_event e s n S message filepath force]\<rparr>
          else s\<lparr>tiers := butlast (tiers s)
                    @ [t1\<lparr>suppressed_by_name := dd_add (suppressed_by_name t) n 1,
                          suppressed_by_level := dd_add (suppressed_by_level t) S 1\<rparr>],
                 trace := trace s
                    @ (if dict_get (suppressed_by_name t) n 0 + 1 = 1 \<and> limit \<noteq> 0
                       then [notice_event e s n S] else [])\<rparr>))"
proof -
  let ?t = "last (tiers s)"
  let ?t1 = "count_message n S ?t"
  have cn: "counters_by_name ?t1 = dd_add (counters_by_name ?t) n 1"
    and lim: "limits_by_name ?t1 = limits_by_name ?t"
    and sn: "suppressed_by_name ?t1 = suppressed_by_name ?t"
    and sl: "suppressed_by_level ?t1 = suppressed_by_level ?t"
    using assms(2) by (simp_all add: count_message_def Let_def)
  have now: "log_now n force ?t1 =
       (dict_get (limits_by_name ?t) n (- 1) < 0
          \<or> dict_get (counters_by_name ?t) n 0 + 1 \<le> dict_get (limits_by_name ?t) n (- 1)
          \<or> force, ?t1)"
    by (auto simp add: log_now_def Let_def cn lim dd_read_present)
  have len: "length (butlast (tiers s) @ [x]) = length (tiers s)" for x
    using assms(3) by simp
  show ?thesis
    using assms
    by (simp add: log_def now Let_def lim sn sl set_top_def logger_log_eq
          logged_text_record_text record_text_frame len logger_event_frame
          message_event_def notice_event_def dict_get_dd_add
        split: bool.splits)
qed


lemma count_message_counters:
  "n \<noteq> [] \<Longrightarrow> dict_get (counters_by_name (count_message n S t)) k 0
     = dict_get (counters_by_name t) k 0 + (if k = n then 1 else 0)"
  "dict_get (counters_by_level (count_message n S t)) k' 0
     = dict_get (counters_by_level t) k' 0 + (if k' = level_key t S then 1 else 0)"
  by (simp_all add: count_message_def Let_def dict_get_dd_add level_key_def)

lemma open_tier_unfold:
  assumes "map_of (level_by_name s) ''header'' = Some h"
  shows "open_tier e ttl filepath L hs force s =
     (let title1 = (if filepath \<noteq> [] then ttl @ '': '' @ logged_filepath e s filepath
                    else ttl);
          ev = logger_event s h (record_text e s (Name ''HEADER'') title1 []) force
      in if maxdepth s \<le> get_depth s
         then (Inl (ValueError ''Maximum logging hierarchy depth has been reached''),
               s\<lparr>trace := trace s @ [ev]\<rparr>)
         else if tiers s = [] then (Inl IndexError, s\<lparr>trace := trace s @ [ev]\<rparr>)
         else (case add_handlers (cls s)
                      (map baseFilename (filter is_file_handler (handlers s))) hs
                      (handlers s) [] of
                 Inl err \<Rightarrow> (Inl err, s\<lparr>trace := trace s @ [ev]\<rparr>)
               | Inr (attached, local) \<Rightarrow>
                   (case inherit_limits (dict_keys L)
                           (fold (\<lambda>(name, limit) d. dict_set d name limit) L
                              (limits_by_name (last (tiers s))))
                           (counters_by_name (last (tiers s))) of
                      (limits2, counters) \<Rightarrow>
                        (Inr (),
                         s\<lparr>tiers := butlast (tiers s)
                               @ [(last (tiers s))\<lparr>counters_by_name := counters\<rparr>,
                                  \<lparr>title = title1, start_time = now e,
                                   limits_by_name = limits2, counters_by_name = [],
                                   suppressed_by_name = [], counters_by_level = [],
                                   suppressed_by_level = [], local_handlers = local\<rparr>],
                            handlers := attached,
                            trace := trace s @ [ev]\<rparr>))))"
  using assms
  by (simp add: open_tier_def Let_def logger_log_eq get_depth_def logged_text_record_text
        split: sum.splits prod.splits)


lemma open_tier_limits:
  assumes "fst (open_tier e ttl filepath L hs force s) = Inr ()"
  shows "tiers (snd (open_tier e ttl filepath L hs force s)) \<noteq> []
    \<and> limits_by_name (last (tiers (snd (open_tier e ttl filepath L hs force s))))
       = map (\<lambda>(name, limit).
               (name, if name \<notin> set (dict_keys L) \<and> limit \<ge> 0
                      then max 0 (limit - dict_get (counters_by_name (last (tiers s))) name 0)
                      else limit))
           (fold (\<lambda>(name, limit) d. dict_set d name limit) L
              (limits_by_name (last (tiers s))))"
proof -
  let ?inh = "inherit_limits (dict_keys L)
                (fold (\<lambda>(name, limit) d. dict_set d name limit) L
                   (limits_by_name (last (tiers s))))
                (counters_by_name (last (tiers s)))"
  obtain h where h: "map_of (level_by_name s) ''header'' = Some h"
    using assms by (cases "map_of (level_by_name s) ''header''") (simp_all add: open_tier_def)
  obtain limits2 counters where i: "?inh = (limits2, counters)" by (cases ?inh)
  show ?thesis
    using assms inherit_limits_eq [OF i]
    unfolding open_tier_unfold [OF h]
    by (simp add: Let_def i split: sum.splits prod.splits if_splits)
qed

lemma merge_level_names_keeps:
  "map_of d v = Some x \<Longrightarrow>
     map_of (fold (\<lambda>(level_name, level_num) d.
               if level_num \<in> set (dict_keys d) then d else dict_set d level_num level_name)
             by_name d) v = Some x"
proof (induction by_name arbitrary: d)
  case Nil
  then show ?case by simp
next
  case (Cons a by_name)
  obtain n l where a: "a = (n, l)" by (cases a)
  have "v \<in> fst ` set d"
    using Cons.prems map_of_eq_None_iff [of d v] by auto
  then have "map_of (if l \<in> set (dict_keys d) then d else dict_set d l n) v = Some x"
    using Cons.prems
    by (auto simp add: dict_keys_def dict_set_def update_conv')
  from Cons.IH [OF this] show ?case by (simp add: a)
qed

lemma init_level_names:
  assumes "init e c = Inr s" and "(v, NAME) \<in> set DEFAULT_LEVEL_NAMES"
  shows "map_of (level_names s) v = Some NAME"
proof -
  have d: "map_of DEFAULT_LEVEL_NAMES v = Some NAME"
    using assms(2) by (auto simp add: DEFAULT_LEVEL_NAMES_def)
  from assms(1) obtain by_name where
    "level_names s = merge_level_names by_name"
    by (auto simp add: init_def set_level_def Let_def
          split: sum.splits prod.splits level_arg.splits option.splits)
  then show ?thesis
    using merge_level_names_keeps [OF d] by (simp add: merge_level_names_def)
qed
















section \<open>Counting\<close>



section \<open>Limits and suppression\<close>




section \<open>The limits of a new tier\<close>

text \<open>
  Claim C3. After a successful \<^verbatim>\<open>open(title, limits=L)\<close> the limit map of the new
  tier gives, for every name: the limit given in \<open>L\<close> if \<open>L\<close> names it; otherwise, if the
  parent's map has a limit \<open>l\<close> for it, \<open>max 0 (l - count)\<close> when \<open>l \<ge> 0\<close>, where
  \<open>count\<close> is the parent's counter of the name, and \<open>l\<close> itself when \<open>l\<close> is negative (so
  -1 stays -1); and no limit if neither names it. \<open>L\<close> is a dictionary: its keys are
  distinct.
\<close>

theorem open_limits:
  assumes "fst (open_tier e ttl filepath L hs force s) = Inr ()" and "distinct (map fst L)"
  shows "map_of (limits_by_name (last (tiers (snd (open_tier e ttl filepath L hs force s)))))
           name =
     (case map_of L name of
        Some v \<Rightarrow> Some v
      | None \<Rightarrow>
          (case map_of (limits_by_name (last (tiers s))) name of
             None \<Rightarrow> None
           | Some l \<Rightarrow>
               Some (if l \<ge> 0
                     then max 0 (l - dict_get (counters_by_name (last (tiers s))) name 0)
                     else l)))"
proof -
  have k: "name \<in> set (dict_keys L) \<longleftrightarrow> map_of L name \<noteq> None"
    by (simp add: dict_keys_def map_of_eq_None_iff)
  show ?thesis
    using open_tier_limits [OF assms(1)] k
    by (auto simp add: map_of_map_value map_of_fold_dict_set [OF assms(2)]
          split: option.splits)
qed

theorem open_limits_witness:
  "fst (open_tier test_env ''task'' [] [(''warn'', 7)] [] False busy_logger) = Inr ()
   \<and> distinct (map fst [(''warn'', 7::int)])
   \<and> map_of (limits_by_name (last (tiers (snd
        (open_tier test_env ''task'' [] [(''warn'', 7)] [] False busy_logger))))) ''warn''
       = Some 7
   \<and> map_of (limits_by_name (last (tiers (snd
        (open_tier test_env ''task'' [] [(''warn'', 7)] [] False busy_logger))))) ''info''
       = Some 3
   \<and> map_of (limits_by_name (last (tiers (snd
        (open_tier test_env ''task'' [] [(''warn'', 7)] [] False busy_logger))))) ''error''
       = Some 0
   \<and> map_of (limits_by_name (last (tiers (snd
        (open_tier test_env ''task'' [] [(''warn'', 7)] [] False busy_logger))))) ''debug''
       = Some (- 1)"
proof -
  have a: "fst (open_tier test_env ''task'' [] [(''warn'', 7)] [] False busy_logger) = Inr ()"
    by code_simp
  have b: "distinct (map fst [(''warn'', 7::int)])" by simp
  have t: "last (tiers busy_logger) =
     \<lparr>title = ''pds.test'', start_time = 0,
      limits_by_name = [(''info'', 5), (''debug'', - 1), (''warn'', 3), (''error'', 1)],
      counters_by_name = [(''info'', 2), (''error'', 4)], suppressed_by_name = [],
      counters_by_level = [(20, 2), (40, 4)], suppressed_by_level = [],
      local_handlers = []\<rparr>"
    by (simp add: busy_logger_def default_logger_def)
  show ?thesis
    using a b open_limits [OF a b, of "''warn''"] open_limits [OF a b, of "''info''"]
      open_limits [OF a b, of "''error''"] open_limits [OF a b, of "''debug''"]
    by (simp add: t dict_get_def)
qed

section \<open>Closing a tier\<close>

text \<open>
  Claim C4. \<^verbatim>\<open>log\<close> counts a message under the bucket of its level
  (\<^verbatim>\<open>key\<close>) but counts a suppressed message under the level itself, and
  \<^verbatim>\<open>close\<close> carries a suppressed total over only under the keys of the counters.
  With an alias of level 25 and limit 0, one suppressed message in a section leaves
  \<open>(20, 1)\<close> in the section's counters by level and \<open>(25, 1)\<close> in its suppressed counts
  by level; after \<^verbatim>\<open>close\<close> the parent has the count under 20 and the suppressed
  count by name, but its suppressed count by level is 0: the section's suppressed total
  by level is lost. The tuple returned is that of the closed tier.
\<close>

theorem close_drops_suppressed_by_level:
  "fst (open_tier test_env ''task'' [] [] [] False foo_logger) = Inr ()
   \<and> fst (log test_env (Name ''foo'') ''m'' [] False
            (snd (open_tier test_env ''task'' [] [] [] False foo_logger))) = Inr ()
   \<and> length (tiers foo_section) = 2
   \<and> counters_by_level (last (tiers foo_section)) = [(20, 1)]
   \<and> suppressed_by_level (last (tiers foo_section)) = [(25, 1)]
   \<and> suppressed_by_level (hd (tiers foo_section)) = []
   \<and> fst (close test_env foo_section) = Inr (0, 0, 0, 1)
   \<and> length (tiers (snd (close test_env foo_section))) = 1
   \<and> counters_by_level (last (tiers (snd (close test_env foo_section)))) = [(20, 1)]
   \<and> suppressed_by_name (last (tiers (snd (close test_env foo_section)))) = [(''foo'', 1)]
   \<and> suppressed_by_level (last (tiers (snd (close test_env foo_section)))) = [(20, 0)]"
  by code_simp

text \<open>
  What the two loops of \<^verbatim>\<open>close\<close> do in general, for a closing tier whose counter
  keys are distinct (it is a dictionary): every count is added to the parent's, and a
  suppressed total is added only under a key that the counters have.
\<close>

lemma log_messages_trace:
  "\<exists>tr. log_messages e msgs s = (Inr (), s\<lparr>trace := tr\<rparr>)"
proof (induction msgs arbitrary: s)
  case Nil
  have "s = s\<lparr>trace := trace s\<rparr>" by simp
  then show ?case by (metis log_messages.simps(1))
next
  case (Cons a msgs)
  obtain lvl line where a: "a = (lvl, line)" by (cases a)
  let ?s1 = "s\<lparr>trace := trace s @ [logger_event s lvl
                 (record_text e s (Name ''summary'') line []) False]\<rparr>"
  from Cons.IH [of ?s1] obtain tr where "log_messages e msgs ?s1 = (Inr (), ?s1\<lparr>trace := tr\<rparr>)"
    by blast
  then have "log_messages e (a # msgs) s = (Inr (), s\<lparr>trace := tr\<rparr>)"
    by (simp add: a logged_text_record_text logger_log_eq)
  then show ?case by blast
qed

lemma transfer_eq:
  "distinct (map fst items) \<Longrightarrow>
     dict_get (fst (transfer items child_suppressed counters suppressed)) k 0
       = dict_get counters k 0 + dict_get items k 0
   \<and> dict_get (snd (transfer items child_suppressed counters suppressed)) k 0
       = dict_get suppressed k 0
         + (if k \<in> set (dict_keys items) then dict_get child_suppressed k 0 else 0)"
proof (induction items arbitrary: counters suppressed)
  case Nil
  then show ?case by (simp add: dict_get_def dict_keys_def)
next
  case (Cons a items)
  obtain k' count where a: "a = (k', count)" by (cases a)
  from Cons.prems have d: "distinct (map fst items)" and n: "k' \<notin> fst ` set items"
    by (auto simp add: a)
  from n have none: "map_of items k' = None" by (simp add: map_of_eq_None_iff)
  show ?case
    using Cons.IH [OF d, of "dd_add counters k' count"
        "dd_add suppressed k' (dict_get child_suppressed k' 0)"] none n
    by (auto simp add: a dict_get_dd_add dict_keys_def) (simp_all add: dict_get_def)
qed

lemma log_messages_snd:
  "\<exists>tr. snd (log_messages e msgs s) = s\<lparr>trace := tr\<rparr>"
  using log_messages_trace [of e msgs s] by auto

lemma log_messages_fst: "fst (log_messages e msgs s) = Inr ()"
  using log_messages_trace [of e msgs s] by auto

lemma log_messages_fields:
  "tiers (snd (log_messages e msgs s)) = tiers s"
  "blanklines (snd (log_messages e msgs s)) = blanklines s"
  using log_messages_snd [of e msgs s] by auto

lemma blankline_tiers: "tiers (blankline level s) = tiers s"
  by (simp add: blankline_def logger_log_eq)

text \<open>
  \<^verbatim>\<open>close\<close> on a logger with a section open above a parent tier: the tuple returned
  is computed from the closing tier's own counters by level, the stack loses its last
  tier, and the parent receives the counts and suppressed totals as the two loops add
  them.
\<close>

lemma close_effect:
  assumes "map_of (level_by_name s) ''header'' = Some h" and "tiers s = below @ [p, t]"
    and "distinct (map fst (counters_by_name t))"
    and "distinct (map fst (counters_by_level t))"
  shows "fst (close e s) = Inr (summarize_loop (counters_by_level t) (0, 0, 0, 0))
    \<and> (\<exists>p'. tiers (snd (close e s)) = below @ [p']
          \<and> limits_by_name p' = limits_by_name p
          \<and> (\<forall>k. dict_get (counters_by_name p') k 0
                   = dict_get (counters_by_name p) k 0 + dict_get (counters_by_name t) k 0)
          \<and> (\<forall>k. dict_get (counters_by_level p') k 0
                   = dict_get (counters_by_level p) k 0 + dict_get (counters_by_level t) k 0)
          \<and> (\<forall>k. dict_get (suppressed_by_name p') k 0
                   = dict_get (suppressed_by_name p) k 0
                     + (if k \<in> set (dict_keys (counters_by_name t))
                        then dict_get (suppressed_by_name t) k 0 else 0))
          \<and> (\<forall>k. dict_get (suppressed_by_level p') k 0
                   = dict_get (suppressed_by_level p) k 0
                     + (if k \<in> set (dict_keys (counters_by_level t))
                        then dict_get (suppressed_by_level t) k 0 else 0)))"
proof -
  let ?tn = "transfer (counters_by_name t) (suppressed_by_name t)
               (counters_by_name p) (suppressed_by_name p)"
  let ?tl = "transfer (counters_by_level t) (suppressed_by_level t)
               (counters_by_level p) (suppressed_by_level p)"
  let ?p' = "p\<lparr>counters_by_name := fst ?tn, suppressed_by_name := snd ?tn,
               counters_by_level := fst ?tl, suppressed_by_level := snd ?tl\<rparr>"
  have f: "fst (close e s) = Inr (summarize_loop (counters_by_level t) (0, 0, 0, 0))"
    using assms(1,2)
    by (simp add: close_def Let_def summarize_def split_beta butlast_append
          log_messages_fst del: log_messages.simps)
  have t: "tiers (snd (close e s)) = below @ [?p']"
    using assms(1,2)
    by (simp add: close_def Let_def summarize_def split_beta butlast_append
          log_messages_fst log_messages_fields blankline_tiers del: log_messages.simps)
  show ?thesis
    using transfer_eq [OF assms(3)] transfer_eq [OF assms(4)]
    by (intro conjI exI [of _ ?p']) (simp_all add: f t)
qed

text \<open>
  The four numbers: messages counted under a key of at least FATAL, under a key in
  [ERROR, FATAL), under a key in [WARNING, ERROR), and all messages counted.
\<close>

lemma summarize_loop_eq:
  "summarize_loop items (fatal, errors, warnings, tests) =
     (fatal + sum_list (map snd (filter (\<lambda>p. FATAL \<le> fst p) items)),
      errors + sum_list (map snd (filter (\<lambda>p. ERROR \<le> fst p \<and> fst p < FATAL) items)),
      warnings + sum_list (map snd (filter (\<lambda>p. WARNING \<le> fst p \<and> fst p < ERROR) items)),
      tests + sum_list (map snd items))"
proof (induction items arbitrary: fatal errors warnings tests)
  case Nil
  then show ?case by simp
next
  case (Cons a items)
  obtain lvl count where a: "a = (lvl, count)" by (cases a)
  show ?case
    by (simp add: a Cons.IH FATAL_def ERROR_def WARNING_def)
qed

text \<open>On a logger with only its root tier, \<^verbatim>\<open>close\<close> leaves no tier.\<close>

lemma close_root:
  assumes "map_of (level_by_name s) ''header'' = Some h" and "tiers s = [t]"
  shows "fst (close e s) = Inr (summarize_loop (counters_by_level t) (0, 0, 0, 0))
    \<and> tiers (snd (close e s)) = []"
  using assms
  by (simp add: close_def Let_def summarize_def split_beta
        log_messages_fst log_messages_fields blankline_tiers del: log_messages.simps)

section \<open>Closing the root tier\<close>

text \<open>
  Claim C5. \<^verbatim>\<open>close\<close> cuts every list by one element whatever its length: called
  on a logger that has only its root tier it returns the totals and leaves an empty
  stack, and the next \<^verbatim>\<open>log\<close> raises IndexError.
\<close>

theorem close_pops_root:
  "fst (close test_env default_logger) = Inr (0, 0, 0, 0)
   \<and> tiers (snd (close test_env default_logger)) = []
   \<and> fst (log test_env (Name ''info'') ''m'' [] False (snd (close test_env default_logger)))
       = Inl IndexError"
  by code_simp

section \<open>Opening at the maximum depth\<close>

text \<open>
  Claim C6. When the depth has reached \<^verbatim>\<open>maxdepth\<close>, \<^verbatim>\<open>open\<close> fails with
  the ValueError of the depth test and the tier stack (titles, start times, limit maps,
  counters, local handlers) and the handler list are as before the call; the only change
  to the logger is the header record, which was handed to \<^verbatim>\<open>_logger_log\<close> before
  the test.
\<close>

theorem open_at_maxdepth:
  assumes "maxdepth s \<le> get_depth s" and "map_of (level_by_name s) ''header'' = Some h"
  shows "fst (open_tier e ttl filepath limits hs force s)
           = Inl (ValueError ''Maximum logging hierarchy depth has been reached'')
    \<and> tiers (snd (open_tier e ttl filepath limits hs force s)) = tiers s
    \<and> handlers (snd (open_tier e ttl filepath limits hs force s)) = handlers s
    \<and> snd (open_tier e ttl filepath limits hs force s)
        = s\<lparr>trace := trace s @ [logger_event s h
              (record_text e s (Name ''HEADER'')
                 (if filepath \<noteq> [] then ttl @ '': '' @ logged_filepath e s filepath
                  else ttl) []) force]\<rparr>"
  using assms
  by (simp add: open_tier_def Let_def logger_log_eq get_depth_def logged_text_record_text)

theorem open_at_maxdepth_witness:
  "maxdepth flat_logger \<le> get_depth flat_logger
   \<and> map_of (level_by_name flat_logger) ''header'' = Some 20
   \<and> fst (open_tier test_env ''task'' [] [(''info'', 3)] [] False flat_logger)
       = Inl (ValueError ''Maximum logging hierarchy depth has been reached'')
   \<and> tiers (snd (open_tier test_env ''task'' [] [(''info'', 3)] [] False flat_logger))
       = tiers flat_logger"
proof -
  have a: "maxdepth flat_logger \<le> get_depth flat_logger" by code_simp
  have b: "map_of (level_by_name flat_logger) ''header'' = Some 20" by code_simp
  show ?thesis
    using a b open_at_maxdepth [OF a b, of test_env "''task''" "[]" "[(''info'', 3)]" "[]" False]
    by simp
qed

section \<open>The header record of open\<close>

text \<open>
  Claim C7, as the spec states it, fails: \<^verbatim>\<open>open\<close> passes its header to
  \<^verbatim>\<open>_logger_log\<close> directly, not to \<^verbatim>\<open>log\<close>. On the logger built with
  \<^verbatim>\<open>limits={'header': 0}\<close> the header record is printed although the limit of
  \<open>header\<close> is 0, and afterwards the former top tier has counted nothing: its counter
  of \<open>header\<close> is 0 and it has no counter by level.
\<close>

theorem open_header_counted_counterexample:
  "dict_get (limits_by_name (last (tiers header_limited))) ''header'' (- 1) = 0
   \<and> fst (open_tier test_env ''task'' [] [] [] False header_limited) = Inr ()
   \<and> trace (snd (open_tier test_env ''task'' [] [] [] False header_limited))
       = [Printed ''2024-01-01 00:00:00.000000 | pds.test || HEADER | task'']
   \<and> dict_get (counters_by_name
        (hd (tiers (snd (open_tier test_env ''task'' [] [] [] False header_limited)))))
        ''header'' 0 = 0
   \<and> counters_by_level
        (hd (tiers (snd (open_tier test_env ''task'' [] [] [] False header_limited)))) = []
   \<and> length (tiers (snd (open_tier test_env ''task'' [] [] [] False header_limited))) = 2"
  by code_simp

text \<open>
  Claim C7, amended. Every call of \<^verbatim>\<open>open\<close> on a logger that knows the alias
  \<open>header\<close> hands exactly one record, the title at the level of \<open>header\<close>, to
  \<^verbatim>\<open>_logger_log\<close> (with the \<^verbatim>\<open>force\<close> of the call) before anything is pushed.
  The record does not pass through the counting of \<^verbatim>\<open>log\<close>. When the call
  fails, for whatever reason, the limits, the counters by name and by level and the
  suppressed counts by name and by level of every tier are what they were before the
  call. When it succeeds, a tier with empty counters is pushed, and the former top tier
  is the same but for keys with count 0 that the reading of its counters inserts: the
  value of every counter by name is unchanged, as are its counters by level, its
  suppressed counts and its limits. No limit is consulted for the header.
\<close>

theorem open_header_bypasses_counting:
  assumes "map_of (level_by_name s) ''header'' = Some h"
  shows "trace (snd (open_tier e ttl filepath L hs force s))
           = trace s @ [logger_event s h
               (record_text e s (Name ''HEADER'')
                  (if filepath \<noteq> [] then ttl @ '': '' @ logged_filepath e s filepath
                   else ttl) []) force]
    \<and> (fst (open_tier e ttl filepath L hs force s) \<noteq> Inr ()
          \<longrightarrow> map limits_by_name (tiers (snd (open_tier e ttl filepath L hs force s)))
                = map limits_by_name (tiers s)
            \<and> map counters_by_name (tiers (snd (open_tier e ttl filepath L hs force s)))
                = map counters_by_name (tiers s)
            \<and> map counters_by_level (tiers (snd (open_tier e ttl filepath L hs force s)))
                = map counters_by_level (tiers s)
            \<and> map suppressed_by_name (tiers (snd (open_tier e ttl filepath L hs force s)))
                = map suppressed_by_name (tiers s)
            \<and> map suppressed_by_level (tiers (snd (open_tier e ttl filepath L hs force s)))
                = map suppressed_by_level (tiers s))
    \<and> (fst (open_tier e ttl filepath L hs force s) = Inr ()
          \<longrightarrow> (\<exists>parent new_tier.
                 tiers (snd (open_tier e ttl filepath L hs force s))
                   = butlast (tiers s) @ [parent, new_tier]
               \<and> tiers s \<noteq> []
               \<and> (\<forall>n. dict_get (counters_by_name parent) n 0
                         = dict_get (counters_by_name (last (tiers s))) n 0)
               \<and> parent\<lparr>counters_by_name := counters_by_name (last (tiers s))\<rparr>
                   = last (tiers s)
               \<and> counters_by_name new_tier = [] \<and> counters_by_level new_tier = []
               \<and> suppressed_by_name new_tier = [] \<and> suppressed_by_level new_tier = []))"
proof -
  let ?inh = "inherit_limits (dict_keys L)
                (fold (\<lambda>(name, limit) d. dict_set d name limit) L
                   (limits_by_name (last (tiers s))))
                (counters_by_name (last (tiers s)))"
  obtain limits2 counters where i: "?inh = (limits2, counters)" by (cases ?inh)
  from inherit_limits_eq [OF i]
  have c: "\<And>k. dict_get counters k 0 = dict_get (counters_by_name (last (tiers s))) k 0"
    by simp
  show ?thesis
    unfolding open_tier_unfold [OF assms]
    by (simp add: Let_def i c split: sum.splits prod.splits)
qed

text \<open>
  A call that succeeds, on the logger built with \<^verbatim>\<open>limits={'header': 0}\<close>, and a
  call that fails after the header, \<^verbatim>\<open>open('task', handler=h)\<close> on an
  \<^verbatim>\<open>EasyLogger\<close>, whose \<^verbatim>\<open>self._logger\<close> is \<^verbatim>\<open>None\<close>.
\<close>

theorem open_header_bypasses_counting_witness:
  "map_of (level_by_name header_limited) ''header'' = Some 20
   \<and> fst (open_tier test_env ''task'' [] [] [] False header_limited) = Inr ()
   \<and> trace (snd (open_tier test_env ''task'' [] [] [] False header_limited))
       = trace header_limited @ [logger_event header_limited 20
               (record_text test_env header_limited (Name ''HEADER'') ''task'' []) False]
   \<and> (\<exists>parent new_tier.
         tiers (snd (open_tier test_env ''task'' [] [] [] False header_limited))
           = butlast (tiers header_limited) @ [parent, new_tier]
       \<and> dict_get (counters_by_name parent) ''header'' 0
           = dict_get (counters_by_name (last (tiers header_limited))) ''header'' 0)
   \<and> map_of (level_by_name easy_logger) ''header'' = Some 20
   \<and> fst (open_tier test_env ''task'' [] [] [StreamHandler 0] False easy_logger)
       = Inl AttributeError
   \<and> trace (snd (open_tier test_env ''task'' [] [] [StreamHandler 0] False easy_logger))
       = [Printed ''2024-01-01 00:00:00.000000 | pds.easylog || HEADER | task'']
   \<and> map counters_by_name
        (tiers (snd (open_tier test_env ''task'' [] [] [StreamHandler 0] False easy_logger)))
       = map counters_by_name (tiers easy_logger)
   \<and> map counters_by_level
        (tiers (snd (open_tier test_env ''task'' [] [] [StreamHandler 0] False easy_logger)))
       = map counters_by_level (tiers easy_logger)
   \<and> map limits_by_name
        (tiers (snd (open_tier test_env ''task'' [] [] [StreamHandler 0] False easy_logger)))
       = map limits_by_name (tiers easy_logger)"
proof -
  have a: "map_of (level_by_name header_limited) ''header'' = Some 20" by code_simp
  have b: "fst (open_tier test_env ''task'' [] [] [] False header_limited) = Inr ()"
    by code_simp
  have a': "map_of (level_by_name easy_logger) ''header'' = Some 20" by code_simp
  have b': "fst (open_tier test_env ''task'' [] [] [StreamHandler 0] False easy_logger)
      = Inl AttributeError"
    by code_simp
  have t': "trace easy_logger = []" by code_simp
  have ev: "logger_event easy_logger 20
      (record_text test_env easy_logger (Name ''HEADER'') ''task'' []) False
      = Printed ''2024-01-01 00:00:00.000000 | pds.easylog || HEADER | task''"
    by code_simp
  show ?thesis
    using a b a' b' t' ev
      open_header_bypasses_counting [OF a, of test_env "''task''" "[]" "[]" "[]" False]
      open_header_bypasses_counting [OF a', of test_env "''task''" "[]" "[]"
        "[StreamHandler 0]" False]
    by auto
qed

section \<open>Forced records and the logger's own threshold\<close>

text \<open>
  Claim C8. A forced record is raised to FATAL (50) and then compared with the logger's
  minimum level, so a threshold above FATAL still filters it: on the logger built with
  \<^verbatim>\<open>level=60\<close>, \<^verbatim>\<open>log('fatal', 'x', force=True)\<close> counts the message and the
  record is dropped by the level test of \<^verbatim>\<open>_logger_log\<close>.
\<close>

theorem force_below_threshold:
  "log test_env (Name ''fatal'') ''x'' [] True quiet_logger =
     (Inr (), quiet_logger
        \<lparr>tiers := [(last (tiers quiet_logger))
                    \<lparr>counters_by_name := [(''fatal'', 1)], counters_by_level := [(50, 1)]\<rparr>],
         trace := [Filtered 50 ''2024-01-01 00:00:00.000000 | pds.test || FATAL | x'']\<rparr>)"
  by code_simp

text \<open>
  The method of the same name in \<^verbatim>\<open>EasyLogger\<close> and \<^verbatim>\<open>NullLogger\<close> prints a
  forced record at every threshold.
\<close>

lemma force_overrides_in_subclasses:
  "cls s \<noteq> PdsLogger \<Longrightarrow> logger_event s level message True = Printed message"
  by (cases "cls s") (simp_all add: logger_event_def)

text \<open>In \<^verbatim>\<open>PdsLogger\<close> itself a forced record passes exactly the thresholds up to FATAL.\<close>

lemma force_in_PdsLogger:
  "cls s = PdsLogger \<Longrightarrow>
     logger_event s level message True \<noteq> Filtered FATAL message \<longleftrightarrow> min_level s \<le> FATAL"
  by (simp add: logger_event_def)

section \<open>The level shown in a record\<close>

lemma logged_level_fallback:
  assumes "dict_get (level_names s) l [] = []" and "1 < l"
  shows "logged_level s (Num l) =
     Inr ((if 50 < l then ''FATAL'' else if 40 < l then ''ERROR''
           else if 30 < l then ''WARNING'' else if 20 < l then ''INFO''
           else if 10 < l then ''DEBUG'' else ''HIDDEN'')
          @ ''+'' @ str_int (l - (if 50 < l then 50 else if 40 < l then 40
           else if 30 < l then 30 else if 20 < l then 20 else if 10 < l then 10 else 1)))"
  using assms
  by (simp add: logged_level_def DEFAULT_LEVEL_NAMES_def)

lemma logged_level_below_minimum:
  "dict_get (level_names s) l [] = [] \<Longrightarrow> l \<le> 1 \<Longrightarrow> logged_level s (Num l) = Inl IndexError"
  by (simp add: logged_level_def DEFAULT_LEVEL_NAMES_def)

text \<open>
  Claim C9, as the spec states it, fails for the numbers at or below the lowest default
  level: not every number without a name is mapped to a string. The default logger has
  no name for 0, no default level lies below 0, and the source's \<^verbatim>\<open>diffs[0]\<close>
  raises IndexError; \<^verbatim>\<open>log(0, 'x')\<close> fails with it after the message has been
  counted under the level key 1.
\<close>

theorem logged_level_unnamed_zero_counterexample:
  "dict_get (level_names default_logger) 0 [] = []
   \<and> logged_level default_logger (Num 0) = Inl IndexError
   \<and> log test_env (Num 0) ''x'' [] False default_logger =
       (Inl IndexError,
        default_logger\<lparr>tiers := [(last (tiers default_logger))
                                   \<lparr>counters_by_level := [(1, 1)]\<rparr>]\<rparr>)"
  by code_simp

text \<open>
  Claim C9, amended. \<^verbatim>\<open>_logged_level\<close> maps a number that has a non-empty (ASCII)
  name in \<^verbatim>\<open>_level_names\<close> to that name in upper case. Every other number above
  the lowest level HIDDEN (1) is mapped to \<open>name+delta\<close>, where \<open>name\<close> belongs to
  the greatest default level below the number and \<open>delta\<close> is the difference to it, the
  smallest positive difference to a default level. For every other number at or below
  HIDDEN there is no such level, and the function raises IndexError. In particular 23
  without a name of its own is shown as \<open>INFO+3\<close>.
\<close>

theorem logged_level_display:
  "(map_of (level_names s) l = Some n \<and> n \<noteq> [] \<and> isascii n
       \<longrightarrow> logged_level s (Num l) = Inr (upper n))
   \<and> (dict_get (level_names s) l [] = [] \<and> HIDDEN < l \<longrightarrow>
        (\<exists>lev name. (lev, name) \<in> set DEFAULT_LEVEL_NAMES \<and> lev < l
            \<and> (\<forall>lev' name'. (lev', name') \<in> set DEFAULT_LEVEL_NAMES \<and> lev' < l
                  \<longrightarrow> lev' \<le> lev)
            \<and> logged_level s (Num l) = Inr (name @ ''+'' @ str_int (l - lev))))
   \<and> (dict_get (level_names s) l [] = [] \<and> l \<le> HIDDEN
       \<longrightarrow> logged_level s (Num l) = Inl IndexError)
   \<and> (dict_get (level_names s) 23 [] = [] \<longrightarrow> logged_level s (Num 23) = Inr ''INFO+3'')"
proof (intro conjI impI)
  assume "map_of (level_names s) l = Some n \<and> n \<noteq> [] \<and> isascii n"
  then show "logged_level s (Num l) = Inr (upper n)"
    by (simp add: logged_level_def dict_get_def)
next
  assume a: "dict_get (level_names s) l [] = [] \<and> HIDDEN < l"
  then have l: "1 < l" by (simp add: HIDDEN_def)
  let ?lev = "if 50 < l then 50 else if 40 < l then 40 else if 30 < l then 30
           else if 20 < l then 20 else if 10 < l then 10 else (1::int)"
  let ?name = "if 50 < l then ''FATAL'' else if 40 < l then ''ERROR''
           else if 30 < l then ''WARNING'' else if 20 < l then ''INFO''
           else if 10 < l then ''DEBUG'' else ''HIDDEN''"
  have 1: "(?lev, ?name) \<in> set DEFAULT_LEVEL_NAMES"
    by (simp add: DEFAULT_LEVEL_NAMES_def)
  have 2: "?lev < l" using l by simp
  have 3: "\<forall>lev' name'. (lev', name') \<in> set DEFAULT_LEVEL_NAMES \<and> lev' < l \<longrightarrow> lev' \<le> ?lev"
    by (auto simp add: DEFAULT_LEVEL_NAMES_def)
  have 4: "logged_level s (Num l) = Inr (?name @ ''+'' @ str_int (l - ?lev))"
    using logged_level_fallback [of s l] a l by simp
  from 1 2 3 4 show "\<exists>lev name. (lev, name) \<in> set DEFAULT_LEVEL_NAMES \<and> lev < l
            \<and> (\<forall>lev' name'. (lev', name') \<in> set DEFAULT_LEVEL_NAMES \<and> lev' < l
                  \<longrightarrow> lev' \<le> lev)
            \<and> logged_level s (Num l) = Inr (name @ ''+'' @ str_int (l - lev))"
    by blast
next
  assume "dict_get (level_names s) l [] = [] \<and> l \<le> HIDDEN"
  then show "logged_level s (Num l) = Inl IndexError"
    using logged_level_below_minimum [of s l] by (simp add: HIDDEN_def)
next
  assume "dict_get (level_names s) 23 [] = []"
  then show "logged_level s (Num 23) = Inr ''INFO+3''"
    using logged_level_fallback [of s 23]
    by (simp add: str_int_def str_nat.simps digit_char_def)
qed

text \<open>
  On the logger built with \<^verbatim>\<open>levels={'foo': 25}\<close> the number 25 is shown as
  \<open>FOO\<close>; on the default logger 23 is shown as \<open>INFO+3\<close>, and -5 raises.
\<close>

theorem logged_level_display_witness:
  "map_of (level_names foo_logger) 25 = Some ''foo'' \<and> isascii ''foo''
   \<and> logged_level foo_logger (Num 25) = Inr ''FOO''
   \<and> dict_get (level_names default_logger) 23 [] = []
   \<and> logged_level default_logger (Num 23) = Inr ''INFO+3''
   \<and> dict_get (level_names default_logger) (- 5) [] = []
   \<and> logged_level default_logger (Num (- 5)) = Inl IndexError"
proof -
  have a: "map_of (level_names foo_logger) 25 = Some ''foo'' \<and> ''foo'' \<noteq> []
      \<and> isascii ''foo''"
    by code_simp
  have u: "upper ''foo'' = ''FOO''" by code_simp
  have b: "dict_get (level_names default_logger) 23 [] = []" by code_simp
  have c: "dict_get (level_names default_logger) (- 5) [] = [] \<and> - 5 \<le> HIDDEN"
    by code_simp
  show ?thesis
    using a u b c logged_level_display [of foo_logger 25 "''foo''"]
      logged_level_display [of default_logger "- 5" "''x''"]
    by simp
qed

section \<open>Numeric levels\<close>

text \<open>
  Claim C10. Let the logger map the default level \<open>v\<close> (50, 40, 30, 20, 10 or 1) to its
  default name \<open>NAME\<close>, as every constructed logger does (\<open>init_level_names\<close>), and let
  every key of the top tier's limit map be in lower case, as \<^verbatim>\<open>set_limit\<close> stores
  them. Then \<^verbatim>\<open>log(v, ...)\<close> counts under \<open>NAME\<close>, which is in upper case and
  differs from every lower-case alias; the lookup of its limit finds no entry and yields
  -1; the message is counted, handed to \<^verbatim>\<open>_logger_log\<close> and never suppressed, and
  the counter of no other name changes.
\<close>

theorem numeric_level_counting_key:
  assumes "tiers s \<noteq> []" and "(v, NAME) \<in> set DEFAULT_LEVEL_NAMES"
    and "map_of (level_names s) v = Some NAME"
    and "\<forall>k\<in>set (dict_keys (limits_by_name (last (tiers s)))). lower k = k"
  shows "resolve_level s (Num v) = Inr (NAME, v)
    \<and> upper NAME = NAME \<and> lower NAME \<noteq> NAME
    \<and> dict_get (limits_by_name (last (tiers s))) NAME (- 1) = - 1
    \<and> log e (Num v) message filepath force s =
        (Inr (), s\<lparr>tiers := butlast (tiers s) @ [count_message NAME v (last (tiers s))],
                    trace := trace s @ [message_event e s NAME v message filepath force]\<rparr>)
    \<and> (\<forall>k. dict_get (counters_by_name (count_message NAME v (last (tiers s)))) k 0
            = dict_get (counters_by_name (last (tiers s))) k 0 + (if k = NAME then 1 else 0))
    \<and> suppressed_by_name (count_message NAME v (last (tiers s)))
        = suppressed_by_name (last (tiers s))"
proof -
  have r: "resolve_level s (Num v) = Inr (NAME, v)"
    using assms(3) by (simp add: resolve_level_def)
  have n: "upper NAME = NAME \<and> lower NAME \<noteq> NAME \<and> NAME \<noteq> []"
    using assms(2)
    by (auto simp add: DEFAULT_LEVEL_NAMES_def upper_def lower_def upper_char_def
          lower_char_def ascii_lowercase_def ascii_uppercase_def)
  have "NAME \<notin> set (dict_keys (limits_by_name (last (tiers s))))"
    using assms(4) n by auto
  then have l: "dict_get (limits_by_name (last (tiers s))) NAME (- 1) = - 1"
    by (simp add: dict_get_def dict_keys_def map_of_eq_None_iff [THEN iffD2])
  have ne: "NAME \<noteq> []" using n by simp
  have sup: "suppressed_by_name (count_message NAME v (last (tiers s)))
        = suppressed_by_name (last (tiers s))"
    by (simp add: count_message_def Let_def)
  show ?thesis
    using log_named_step [OF r ne assms(1), of e message filepath force] r n l sup
    by (simp add: Let_def count_message_counters ne)
qed

lemma set_limit_warning:
  "set_limit ''WARNING'' 0 default_logger = (Inr (), warning_limited)"
  by code_simp

theorem numeric_level_counting_key_witness:
  "tiers warning_limited \<noteq> []
   \<and> (30, ''WARNING'') \<in> set DEFAULT_LEVEL_NAMES
   \<and> map_of (level_names warning_limited) 30 = Some ''WARNING''
   \<and> dict_keys (limits_by_name (last (tiers warning_limited))) = [''warning'']
   \<and> lower ''warning'' = ''warning''
   \<and> dict_get (limits_by_name (last (tiers warning_limited))) ''warning'' (- 1) = 0
   \<and> dict_get (limits_by_name (last (tiers warning_limited))) ''WARNING'' (- 1) = - 1
   \<and> log test_env (Num 30) ''m'' [] False warning_limited =
        (Inr (), warning_limited
           \<lparr>tiers := butlast (tiers warning_limited)
               @ [count_message ''WARNING'' 30 (last (tiers warning_limited))],
            trace := trace warning_limited
               @ [message_event test_env warning_limited ''WARNING'' 30 ''m'' [] False]\<rparr>)
   \<and> dict_get (counters_by_name (count_message ''WARNING'' 30
         (last (tiers warning_limited)))) ''WARNING'' 0 = 1
   \<and> dict_get (counters_by_name (count_message ''WARNING'' 30
         (last (tiers warning_limited)))) ''warning'' 0 = 0"
proof -
  have a: "tiers warning_limited \<noteq> []" by code_simp
  have b: "(30, ''WARNING'') \<in> set DEFAULT_LEVEL_NAMES"
    by (simp add: DEFAULT_LEVEL_NAMES_def)
  have c: "map_of (level_names warning_limited) 30 = Some ''WARNING''" by code_simp
  have k: "dict_keys (limits_by_name (last (tiers warning_limited))) = [''warning'']"
    by code_simp
  have l: "lower ''warning'' = ''warning''" by code_simp
  have d: "\<forall>k\<in>set (dict_keys (limits_by_name (last (tiers warning_limited)))). lower k = k"
    using k l by simp
  have z: "dict_get (counters_by_name (last (tiers warning_limited))) ''WARNING'' 0 = 0"
    "dict_get (counters_by_name (last (tiers warning_limited))) ''warning'' 0 = 0"
    "dict_get (limits_by_name (last (tiers warning_limited))) ''warning'' (- 1) = 0"
    by code_simp+
  show ?thesis
    using a b c k l z numeric_level_counting_key [OF a b c d, of test_env "''m''" "[]" False]
    by simp
qed

end
